theory Spec2Isabelle
  imports Complex_Main
begin

section \<open>Data model of the topology graph\<close>

text \<open>
  The component \<open>TopologyGraph\<close> reads three collections from its store and derives a
  node list and an edge list from them. Strings are only ever compared with \<open>===\<close>, so
  \<open>string\<close> with HOL equality stands for them.
\<close>

text \<open>
  Modelled from the spec: the declarations of \<open>ExchangeType\<close>, \<open>Exchange\<close>, \<open>Queue\<close> and
  \<open>Binding\<close>, which the component imports from its types module. The records carry the
  fields that the data model lists, which are the fields the component reads; the six
  exchange types are the keys of the component's tables \<open>exchangeTypeIcons\<close> and
  \<open>exchangeColors\<close>.
\<close>

datatype ExchangeType = Direct | Fanout | Topic | Headers | XDelayedMessage | XConsistentHash

record Exchange =
  exchange_id :: string
  exchange_name :: string
  exchange_type :: ExchangeType

record Queue =
  queue_id :: string
  queue_name :: string
  queue_type :: string
  messagesTotal :: nat
  consumers :: nat
  healthScore :: nat

record Binding =
  binding_id :: string
  binding_source :: string
  binding_destination :: string
  binding_routingKey :: string

datatype NodeType = ExchangeNode | QueueNode

datatype NodeData = ExchangeData Exchange | QueueData Queue

text \<open>
  \<open>(n.data as Exchange).name\<close> and \<open>(n.data as Queue).name\<close>: the cast does nothing
  when the program runs, the property \<open>name\<close> of whichever record is stored is read.
\<close>

fun data_name :: "NodeData \<Rightarrow> string" where
  "data_name (ExchangeData exchange) = exchange_name exchange"
| "data_name (QueueData queue) = queue_name queue"

text \<open>
  Node coordinates are whole numbers computed from the index (\<open>120 + index * 140\<close>,
  \<open>100 + index * 110\<close>), which doubles represent exactly for every list a browser can
  hold; they are integers here.
\<close>

record Node =
  node_id :: string
  node_type :: NodeType
  node_name :: string
  node_x :: int
  node_y :: int
  node_data :: NodeData

record Edge =
  edge_id :: string
  edge_source :: string
  edge_target :: string
  edge_routingKey :: string

datatype FilterType = FilterAll | FilterExchange | FilterQueue

record Graph =
  nodes :: "Node list"
  edges :: "Edge list"

section \<open>The resolver: the \<open>useMemo\<close> callback of \<open>TopologyGraph\<close>\<close>

text \<open>
  \<open>exchanges.forEach((exchange, index) => { if (filterType === 'queue') return;
  nodeList.push({...}) })\<close>: the list being built is threaded through, the index counts
  every element, also the skipped ones.
\<close>

fun pushExchanges :: "FilterType \<Rightarrow> Exchange list \<Rightarrow> nat \<Rightarrow> Node list \<Rightarrow> Node list" where
  "pushExchanges filterType [] index nodeList = nodeList"
| "pushExchanges filterType (exchange # rest) index nodeList =
     pushExchanges filterType rest (Suc index)
       (if filterType = FilterQueue then nodeList
        else nodeList @
          [\<lparr>node_id = exchange_id exchange, node_type = ExchangeNode,
            node_name = exchange_name exchange, node_x = 200,
            node_y = 120 + int index * 140, node_data = ExchangeData exchange\<rparr>])"

fun pushQueues :: "FilterType \<Rightarrow> Queue list \<Rightarrow> nat \<Rightarrow> Node list \<Rightarrow> Node list" where
  "pushQueues filterType [] index nodeList = nodeList"
| "pushQueues filterType (queue # rest) index nodeList =
     pushQueues filterType rest (Suc index)
       (if filterType = FilterExchange then nodeList
        else nodeList @
          [\<lparr>node_id = queue_id queue, node_type = QueueNode,
            node_name = queue_name queue, node_x = 650,
            node_y = 100 + int index * 110, node_data = QueueData queue\<rparr>])"

text \<open>The two arrow functions handed to \<open>nodeList.find\<close>, disjuncts in the source's order.\<close>

definition sourceMatch :: "Binding \<Rightarrow> Node \<Rightarrow> bool" where
  "sourceMatch binding n \<longleftrightarrow>
     node_id n = binding_source binding \<or>
     node_name n = binding_source binding \<or>
     (node_type n = ExchangeNode \<and> data_name (node_data n) = binding_source binding)"

definition targetMatch :: "Binding \<Rightarrow> Node \<Rightarrow> bool" where
  "targetMatch binding n \<longleftrightarrow>
     node_id n = binding_destination binding \<or>
     node_name n = binding_destination binding \<or>
     (node_type n = QueueNode \<and> data_name (node_data n) = binding_destination binding)"

text \<open>\<open>Array.prototype.find\<close> gives the first element that satisfies the predicate, or
  \<open>undefined\<close>: \<open>List.find\<close> with \<open>None\<close>.\<close>

definition sourceNode :: "Node list \<Rightarrow> Binding \<Rightarrow> Node option" where
  "sourceNode nodeList binding = find (sourceMatch binding) nodeList"

definition targetNode :: "Node list \<Rightarrow> Binding \<Rightarrow> Node option" where
  "targetNode nodeList binding = find (targetMatch binding) nodeList"

text \<open>
  \<open>bindings.forEach((binding) => { ...; if (sourceNode && targetNode) edgeList.push({...}) })\<close>.
  A node object is always truthy, so the test is that both lookups found a node.
\<close>

fun pushEdges :: "Node list \<Rightarrow> Binding list \<Rightarrow> Edge list \<Rightarrow> Edge list" where
  "pushEdges nodeList [] edgeList = edgeList"
| "pushEdges nodeList (binding # rest) edgeList =
     pushEdges nodeList rest
       (case sourceNode nodeList binding of
          None \<Rightarrow> edgeList
        | Some s \<Rightarrow>
           (case targetNode nodeList binding of
              None \<Rightarrow> edgeList
            | Some t \<Rightarrow> edgeList @
                [\<lparr>edge_id = binding_id binding, edge_source = node_id s,
                  edge_target = node_id t,
                  edge_routingKey = binding_routingKey binding\<rparr>]))"

definition resolve :: "Exchange list \<Rightarrow> Queue list \<Rightarrow> Binding list \<Rightarrow> FilterType \<Rightarrow> Graph" where
  "resolve exchanges queues bindings filterType =
     (let nodeList = pushQueues filterType queues 0 (pushExchanges filterType exchanges 0 []);
          edgeList = pushEdges nodeList bindings []
      in \<lparr>nodes = nodeList, edges = edgeList\<rparr>)"

section \<open>View state and its handlers\<close>

text \<open>
  The \<open>useState\<close> cells of the component, in one record. A JavaScript number is a double:
  the zoom level is a rational here, and the rounding that a double addition or
  subtraction applies to the exact result is the parameter \<open>rnd\<close> of the zoom handlers
  (round to nearest for the program; the identity gives the exact arithmetic of the
  formulas). The constants \<open>0.5\<close>, \<open>1\<close> and \<open>2\<close> are doubles, \<open>0.2\<close> is not, so it is read
  through \<open>rnd\<close>.
\<close>

record Point =
  point_x :: rat
  point_y :: rat

record ViewState =
  zoom :: rat
  pan :: Point
  selectedNode :: "string option"
  showLabels :: bool
  filterType :: FilterType
  isDragging :: bool
  dragStart :: Point

definition initialView :: ViewState where
  "initialView =
     \<lparr>zoom = 1, pan = \<lparr>point_x = 0, point_y = 0\<rparr>, selectedNode = None,
      showLabels = True, filterType = FilterAll, isDragging = False,
      dragStart = \<lparr>point_x = 0, point_y = 0\<rparr>\<rparr>"

definition handleZoomIn :: "(rat \<Rightarrow> rat) \<Rightarrow> ViewState \<Rightarrow> ViewState" where
  "handleZoomIn rnd s = s\<lparr>zoom := min (rnd (zoom s + rnd (2 / 10))) 2\<rparr>"

definition handleZoomOut :: "(rat \<Rightarrow> rat) \<Rightarrow> ViewState \<Rightarrow> ViewState" where
  "handleZoomOut rnd s = s\<lparr>zoom := max (rnd (zoom s - rnd (2 / 10))) (1 / 2)\<rparr>"

definition handleResetView :: "ViewState \<Rightarrow> ViewState" where
  "handleResetView s = s\<lparr>zoom := 1, pan := \<lparr>point_x = 0, point_y = 0\<rparr>\<rparr>"

datatype ZoomAction = ZoomIn | ZoomOut | ResetView

fun zoomStep :: "(rat \<Rightarrow> rat) \<Rightarrow> ViewState \<Rightarrow> ZoomAction \<Rightarrow> ViewState" where
  "zoomStep rnd s ZoomIn = handleZoomIn rnd s"
| "zoomStep rnd s ZoomOut = handleZoomOut rnd s"
| "zoomStep rnd s ResetView = handleResetView s"

fun runZoom :: "(rat \<Rightarrow> rat) \<Rightarrow> ViewState \<Rightarrow> ZoomAction list \<Rightarrow> ViewState" where
  "runZoom rnd s [] = s"
| "runZoom rnd s (a # as) = runZoom rnd (zoomStep rnd s a) as"

text \<open>
  The click handler of a node glyph, the same in \<open>renderExchangeNode\<close> and
  \<open>renderQueueNode\<close>: \<open>isSelected = selectedNode === node.id\<close>, then
  \<open>setSelectedNode(isSelected ? null : node.id)\<close>.
\<close>

definition selectNode :: "string \<Rightarrow> ViewState \<Rightarrow> ViewState" where
  "selectNode nodeId s =
     (let isSelected = (selectedNode s = Some nodeId)
      in s\<lparr>selectedNode := (if isSelected then None else Some nodeId)\<rparr>)"

text \<open>The \<open>onChange\<close> handler of the filter \<open>select\<close>.\<close>

definition setFilterType :: "FilterType \<Rightarrow> ViewState \<Rightarrow> ViewState" where
  "setFilterType t s = s\<lparr>filterType := t\<rparr>"

section \<open>Sample collections\<close>

text \<open>
  The collections of the worked example (one exchange \<open>e1\<close> named \<open>orders\<close>, one
  queue \<open>q1\<close> named \<open>orders.q\<close>, one binding between them), and variations of them:
  an exchange whose id is the word \<open>orders\<close>, a queue that shares the exchange's name,
  and bindings that name no entity, two queues, the shared name on both sides, or the
  second exchange by its name.
\<close>

definition ex_orders :: Exchange where
  "ex_orders = \<lparr>exchange_id = ''e1'', exchange_name = ''orders'', exchange_type = Direct\<rparr>"

definition ex_id_orders :: Exchange where
  "ex_id_orders = \<lparr>exchange_id = ''orders'', exchange_name = ''legacy'', exchange_type = Fanout\<rparr>"

definition q_orders :: Queue where
  "q_orders = \<lparr>queue_id = ''q1'', queue_name = ''orders.q'', queue_type = ''classic'',
     messagesTotal = 10, consumers = 1, healthScore = 90\<rparr>"

definition q_named_orders :: Queue where
  "q_named_orders = \<lparr>queue_id = ''q2'', queue_name = ''orders'', queue_type = ''classic'',
     messagesTotal = 0, consumers = 0, healthScore = 100\<rparr>"

definition b_orders :: Binding where
  "b_orders = \<lparr>binding_id = ''b1'', binding_source = ''orders'',
     binding_destination = ''orders.q'', binding_routingKey = ''order.created''\<rparr>"

definition b_missing :: Binding where
  "b_missing = \<lparr>binding_id = ''b2'', binding_source = ''nonexistent'',
     binding_destination = ''orders.q'', binding_routingKey = ''x''\<rparr>"

definition b_queues :: Binding where
  "b_queues = \<lparr>binding_id = ''b3'', binding_source = ''q1'',
     binding_destination = ''q2'', binding_routingKey = ''copy''\<rparr>"

definition b_same :: Binding where
  "b_same = \<lparr>binding_id = ''b4'', binding_source = ''orders'',
     binding_destination = ''orders'', binding_routingKey = ''loop''\<rparr>"

definition b_legacy :: Binding where
  "b_legacy = \<lparr>binding_id = ''b5'', binding_source = ''legacy'',
     binding_destination = ''orders.q'', binding_routingKey = ''old''\<rparr>"

section \<open>Facts about the three loops\<close>

lemmas fixture_defs = ex_orders_def ex_id_orders_def q_orders_def q_named_orders_def b_orders_def
  b_missing_def b_queues_def b_same_def b_legacy_def

lemmas resolve_eval = resolve_def sourceNode_def targetNode_def sourceMatch_def targetMatch_def


lemma pushQueues_acc:
  "pushQueues ft qs i (a @ b) = a @ pushQueues ft qs i b"
  by (induction qs arbitrary: i b) auto

lemma pushExchanges_origin:
  "n \<in> set (pushExchanges ft exs i acc) \<Longrightarrow>
   n \<in> set acc \<or>
   (ft \<noteq> FilterQueue \<and>
    (\<exists>ex \<in> set exs. node_id n = exchange_id ex \<and> node_name n = exchange_name ex \<and>
       node_type n = ExchangeNode \<and> node_data n = ExchangeData ex))"
  by (induction exs arbitrary: i acc) (fastforce split: if_splits)+

lemma pushQueues_origin:
  "n \<in> set (pushQueues ft qs i acc) \<Longrightarrow>
   n \<in> set acc \<or>
   (ft \<noteq> FilterExchange \<and>
    (\<exists>q \<in> set qs. node_id n = queue_id q \<and> node_name n = queue_name q \<and>
       node_type n = QueueNode \<and> node_data n = QueueData q))"
  by (induction qs arbitrary: i acc) (fastforce split: if_splits)+

lemma nodes_resolve:
  "nodes (resolve exs qs bs ft) = pushExchanges ft exs 0 [] @ pushQueues ft qs 0 []"
  using pushQueues_acc [of ft qs 0 "pushExchanges ft exs 0 []" "[]"]
  by (simp add: resolve_def Let_def)

lemma edges_resolve:
  "edges (resolve exs qs bs ft) = pushEdges (nodes (resolve exs qs bs ft)) bs []"
  by (simp add: resolve_def Let_def)

lemma pushEdges_acc:
  "pushEdges nl bs (a @ b) = a @ pushEdges nl bs b"
  by (induction bs arbitrary: b) (auto split: option.splits)

lemma pushEdges_append:
  "pushEdges nl (bs1 @ bs2) acc = pushEdges nl bs2 (pushEdges nl bs1 acc)"
  by (induction bs1 arbitrary: acc) auto

lemma pushEdges_set:
  "e \<in> set (pushEdges nl bs acc) \<longleftrightarrow>
   e \<in> set acc \<or>
   (\<exists>b \<in> set bs. \<exists>s t. sourceNode nl b = Some s \<and> targetNode nl b = Some t \<and>
      e = \<lparr>edge_id = binding_id b, edge_source = node_id s, edge_target = node_id t,
            edge_routingKey = binding_routingKey b\<rparr>)"
  by (induction bs arbitrary: acc) (auto split: option.splits)

lemma pushEdges_skip:
  "sourceNode nl b = None \<or> targetNode nl b = None \<Longrightarrow>
   pushEdges nl (b # bs) acc = pushEdges nl bs acc"
  by (auto split: option.splits)

lemma sourceNode_Some:
  "sourceNode nl b = Some s \<Longrightarrow> s \<in> set nl \<and> sourceMatch b s"
  by (auto simp: sourceNode_def find_Some_iff)

lemma targetNode_Some:
  "targetNode nl b = Some t \<Longrightarrow> t \<in> set nl \<and> targetMatch b t"
  by (auto simp: targetNode_def find_Some_iff)

lemma node_origin:
  assumes "n \<in> set (nodes (resolve exs qs bs ft))"
  shows "(ft \<noteq> FilterQueue \<and> node_type n = ExchangeNode \<and> data_name (node_data n) = node_name n \<and>
          (\<exists>x \<in> set exs. node_id n = exchange_id x \<and> node_name n = exchange_name x))
       \<or> (ft \<noteq> FilterExchange \<and> node_type n = QueueNode \<and> data_name (node_data n) = node_name n \<and>
          (\<exists>q \<in> set qs. node_id n = queue_id q \<and> node_name n = queue_name q))"
proof -
  from assms have "n \<in> set (pushExchanges ft exs 0 []) \<or> n \<in> set (pushQueues ft qs 0 [])"
    by (simp add: nodes_resolve)
  then show ?thesis
  proof
    assume "n \<in> set (pushExchanges ft exs 0 [])"
    from pushExchanges_origin [OF this] show ?thesis by auto
  next
    assume "n \<in> set (pushQueues ft qs 0 [])"
    from pushQueues_origin [OF this] show ?thesis by auto
  qed
qed

lemma sourceMatch_resolved:
  "n \<in> set (nodes (resolve exs qs bs ft)) \<Longrightarrow>
   sourceMatch b n \<longleftrightarrow> node_id n = binding_source b \<or> node_name n = binding_source b"
  by (auto simp: sourceMatch_def dest: node_origin)

lemma targetMatch_resolved:
  "n \<in> set (nodes (resolve exs qs bs ft)) \<Longrightarrow>
   targetMatch b n \<longleftrightarrow> node_id n = binding_destination b \<or> node_name n = binding_destination b"
  by (auto simp: targetMatch_def dest: node_origin)

lemma exchanges_all_exchange:
  "n \<in> set (pushExchanges ft exs 0 []) \<Longrightarrow> node_type n = ExchangeNode"
  by (auto dest: pushExchanges_origin)

lemma queues_all_queue:
  "n \<in> set (pushQueues ft qs 0 []) \<Longrightarrow> node_type n = QueueNode"
  by (auto dest: pushQueues_origin)

lemma pushEdges_member:
  "b \<in> set bs \<Longrightarrow> sourceNode nl b = Some s \<Longrightarrow> targetNode nl b = Some t \<Longrightarrow>
   \<lparr>edge_id = binding_id b, edge_source = node_id s, edge_target = node_id t,
    edge_routingKey = binding_routingKey b\<rparr> \<in> set (pushEdges nl bs acc)"
  unfolding pushEdges_set by blast








lemma nodes_order:
  assumes "i < length (nodes (resolve exs qs bs ft))" "j < length (nodes (resolve exs qs bs ft))"
    and "node_type (nodes (resolve exs qs bs ft) ! i) = ExchangeNode"
    and "node_type (nodes (resolve exs qs bs ft) ! j) = QueueNode"
  shows "i < j"
proof -
  let ?xs = "pushExchanges ft exs 0 []" and ?ys = "pushQueues ft qs 0 []"
  have nl: "nodes (resolve exs qs bs ft) = ?xs @ ?ys"
    by (rule nodes_resolve)
  have "i < length ?xs"
  proof (rule ccontr)
    assume "\<not> i < length ?xs"
    with assms(1) have "(?xs @ ?ys) ! i \<in> set ?ys"
      by (simp add: nl nth_append)
    then have "node_type ((?xs @ ?ys) ! i) = QueueNode"
      by (rule queues_all_queue)
    with assms(3) show False by (simp add: nl)
  qed
  moreover have "\<not> j < length ?xs"
  proof
    assume "j < length ?xs"
    then have "(?xs @ ?ys) ! j \<in> set ?xs"
      by (simp add: nth_append)
    then have "node_type ((?xs @ ?ys) ! j) = ExchangeNode"
      by (rule exchanges_all_exchange)
    with assms(4) show False by (simp add: nl)
  qed
  ultimately show ?thesis by simp
qed

lemma exchange_picked:
  assumes P: "\<And>n. n \<in> set (nodes (resolve exs qs bs ft)) \<Longrightarrow>
               P n \<longleftrightarrow> node_id n = r \<or> node_name n = r"
    and ex: "\<exists>n \<in> set (nodes (resolve exs qs bs ft)). node_type n = ExchangeNode \<and>
               (node_id n = r \<or> node_name n = r)"
  shows "\<exists>m i. find P (nodes (resolve exs qs bs ft)) = Some m
           \<and> i < length (nodes (resolve exs qs bs ft))
           \<and> nodes (resolve exs qs bs ft) ! i = m
           \<and> node_type m = ExchangeNode
           \<and> (node_id m = r \<or> node_name m = r)
           \<and> (\<forall>j < i. node_id (nodes (resolve exs qs bs ft) ! j) \<noteq> r \<and>
                        node_name (nodes (resolve exs qs bs ft) ! j) \<noteq> r)"
proof -
  let ?nl = "nodes (resolve exs qs bs ft)"
  from ex obtain n where n: "n \<in> set ?nl" "node_type n = ExchangeNode" "P n"
    using P by blast
  then obtain p where p: "p < length ?nl" "?nl ! p = n"
    by (auto simp: in_set_conv_nth)
  from n have "find P ?nl \<noteq> None"
    by (auto simp: find_None_iff)
  then obtain m where m: "find P ?nl = Some m" by auto
  then obtain i where i: "i < length ?nl" "?nl ! i = m" "P m" "\<forall>j < i. \<not> P (?nl ! j)"
    unfolding find_Some_iff by blast
  from i(1,2) have mem: "m \<in> set ?nl" by auto
  have "\<not> p < i" using i(4) p(2) n(3) by auto
  have ty: "node_type m = ExchangeNode"
  proof (cases "node_type m")
    case ExchangeNode
    then show ?thesis .
  next
    case QueueNode
    with nodes_order [OF p(1) i(1)] p(2) n(2) i(2) have "p < i" by simp
    with \<open>\<not> p < i\<close> show ?thesis by simp
  qed
  have before: "\<forall>j < i. node_id (?nl ! j) \<noteq> r \<and> node_name (?nl ! j) \<noteq> r"
  proof (intro allI impI)
    fix j assume j: "j < i"
    with i(1) have "?nl ! j \<in> set ?nl" by simp
    from P [OF this] i(4) j show "node_id (?nl ! j) \<noteq> r \<and> node_name (?nl ! j) \<noteq> r"
      by blast
  qed
  from P [OF mem] i(3) have "node_id m = r \<or> node_name m = r" by simp
  with m i(1,2) ty before show ?thesis by blast
qed

section \<open>Edges and nodes are consistent\<close>

text \<open>
  C1: for all exchanges, queues, bindings and filter types, every edge of the resolver's
  output has a source and a target that are ids of nodes of the output: no edge dangles.
\<close>

theorem resolve_no_dangling:
  "\<forall>e \<in> set (edges (resolve exs qs bs ft)).
     (\<exists>n \<in> set (nodes (resolve exs qs bs ft)). node_id n = edge_source e) \<and>
     (\<exists>n \<in> set (nodes (resolve exs qs bs ft)). node_id n = edge_target e)"
proof
  fix e
  let ?nl = "nodes (resolve exs qs bs ft)"
  assume "e \<in> set (edges (resolve exs qs bs ft))"
  then have "e \<in> set (pushEdges ?nl bs [])"
    by (simp only: edges_resolve)
  then obtain b s t where st: "sourceNode ?nl b = Some s" "targetNode ?nl b = Some t"
    and e: "e = \<lparr>edge_id = binding_id b, edge_source = node_id s, edge_target = node_id t,
            edge_routingKey = binding_routingKey b\<rparr>"
    unfolding pushEdges_set by auto
  from st have "s \<in> set ?nl" "t \<in> set ?nl"
    by (auto dest: sourceNode_Some targetNode_Some)
  with e show "(\<exists>n \<in> set ?nl. node_id n = edge_source e) \<and> (\<exists>n \<in> set ?nl. node_id n = edge_target e)"
    by auto
qed

theorem resolve_no_dangling_witness:
  "\<lparr>edge_id = ''b1'', edge_source = ''e1'', edge_target = ''q1'',
     edge_routingKey = ''order.created''\<rparr>
     \<in> set (edges (resolve [ex_orders] [q_orders] [b_orders] FilterAll))
   \<and> (\<exists>n \<in> set (nodes (resolve [ex_orders] [q_orders] [b_orders] FilterAll)). node_id n = ''e1'')
   \<and> (\<exists>n \<in> set (nodes (resolve [ex_orders] [q_orders] [b_orders] FilterAll)). node_id n = ''q1'')"
proof -
  let ?r = "resolve [ex_orders] [q_orders] [b_orders] FilterAll"
  let ?e = "\<lparr>edge_id = ''b1'', edge_source = ''e1'', edge_target = ''q1'',
     edge_routingKey = ''order.created''\<rparr>"
  have mem: "?e \<in> set (edges ?r)"
    by (simp add: resolve_eval fixture_defs)
  with resolve_no_dangling [of "[ex_orders]" "[q_orders]" "[b_orders]" FilterAll]
  have "(\<exists>n \<in> set (nodes ?r). node_id n = edge_source ?e)
      \<and> (\<exists>n \<in> set (nodes ?r). node_id n = edge_target ?e)"
    by blast
  with mem show ?thesis by simp
qed

section \<open>Which nodes an endpoint can resolve to\<close>

text \<open>
  C2: the source of every edge is to be an exchange node and its target a queue node,
  and a binding whose source matches a queue only is to give no edge. The drawing of an
  edge relies on it (the path leaves the right side of an exchange glyph and enters the
  left side of a queue glyph), and the third disjunct of either predicate tests the node
  type. The two disjuncts before it test id and name of a node of any type, so the
  lookups do not keep to it. With the exchange \<open>e1\<close> and the queue \<open>q2\<close>, both named
  \<open>orders\<close>, the binding from \<open>orders\<close> to \<open>orders\<close> gets the exchange node as its target:
  the only edge goes from \<open>e1\<close> to \<open>e1\<close>. With the queues \<open>q1\<close> and \<open>q2\<close>, the binding from
  \<open>q1\<close> to \<open>q2\<close>, whose source matches a queue only, gets an edge between the two queue
  nodes.
\<close>

theorem shared_name_self_loop:
  "resolve [ex_orders] [q_named_orders] [b_same] FilterAll =
   \<lparr>nodes =
      [\<lparr>node_id = ''e1'', node_type = ExchangeNode, node_name = ''orders'',
        node_x = 200, node_y = 120, node_data = ExchangeData ex_orders\<rparr>,
       \<lparr>node_id = ''q2'', node_type = QueueNode, node_name = ''orders'',
        node_x = 650, node_y = 100, node_data = QueueData q_named_orders\<rparr>],
    edges =
      [\<lparr>edge_id = ''b4'', edge_source = ''e1'', edge_target = ''e1'',
        edge_routingKey = ''loop''\<rparr>]\<rparr>
   \<and> resolve [ex_orders] [q_orders, q_named_orders] [b_queues] FilterAll =
   \<lparr>nodes =
      [\<lparr>node_id = ''e1'', node_type = ExchangeNode, node_name = ''orders'',
        node_x = 200, node_y = 120, node_data = ExchangeData ex_orders\<rparr>,
       \<lparr>node_id = ''q1'', node_type = QueueNode, node_name = ''orders.q'',
        node_x = 650, node_y = 100, node_data = QueueData q_orders\<rparr>,
       \<lparr>node_id = ''q2'', node_type = QueueNode, node_name = ''orders'',
        node_x = 650, node_y = 210, node_data = QueueData q_named_orders\<rparr>],
    edges =
      [\<lparr>edge_id = ''b3'', edge_source = ''q1'', edge_target = ''q2'',
        edge_routingKey = ''copy''\<rparr>]\<rparr>"
  by (simp add: resolve_eval fixture_defs)

section \<open>Filtering by entity type\<close>

text \<open>
  C3: with the filter \<open>exchange\<close> the output is to have no queue node and no edge, as
  every edge needs a queue endpoint. On the exchange \<open>e1\<close> and the queue \<open>q2\<close>, both
  named \<open>orders\<close>, and the binding from \<open>orders\<close> to \<open>orders\<close>, the filter leaves the
  exchange node alone in the node list and no queue node; the destination lookup then
  returns that exchange node through the name test, which does not look at the node
  type, and the output has the edge from \<open>e1\<close> to \<open>e1\<close>.
\<close>

theorem exchange_filter_keeps_edges:
  "resolve [ex_orders] [q_named_orders] [b_same] FilterExchange =
   \<lparr>nodes =
      [\<lparr>node_id = ''e1'', node_type = ExchangeNode, node_name = ''orders'',
        node_x = 200, node_y = 120, node_data = ExchangeData ex_orders\<rparr>],
    edges =
      [\<lparr>edge_id = ''b4'', edge_source = ''e1'', edge_target = ''e1'',
        edge_routingKey = ''loop''\<rparr>]\<rparr>"
  by (simp add: resolve_eval fixture_defs)

section \<open>The order in which matches are tried\<close>




section \<open>The worked example\<close>

text \<open>
  C5: on the exchange \<open>e1\<close> named \<open>orders\<close>, the queue \<open>q1\<close> named \<open>orders.q\<close> and the
  binding \<open>b1\<close> from \<open>orders\<close> to \<open>orders.q\<close> with routing key \<open>order.created\<close>, with
  the filter \<open>all\<close>, the resolver gives exactly one exchange node at (200,120), exactly
  one queue node at (650,100) and exactly one edge \<open>b1\<close> from \<open>e1\<close> to \<open>q1\<close> carrying the
  routing key. The example leaves the queue's \<open>type\<close> open, so it is arbitrary here.
\<close>

theorem resolve_example:
  "resolve
     [\<lparr>exchange_id = ''e1'', exchange_name = ''orders'', exchange_type = Direct\<rparr>]
     [\<lparr>queue_id = ''q1'', queue_name = ''orders.q'', queue_type = qt,
       messagesTotal = 10, consumers = 1, healthScore = 90\<rparr>]
     [\<lparr>binding_id = ''b1'', binding_source = ''orders'',
       binding_destination = ''orders.q'', binding_routingKey = ''order.created''\<rparr>]
     FilterAll =
   \<lparr>nodes =
      [\<lparr>node_id = ''e1'', node_type = ExchangeNode, node_name = ''orders'',
        node_x = 200, node_y = 120,
        node_data = ExchangeData
          \<lparr>exchange_id = ''e1'', exchange_name = ''orders'', exchange_type = Direct\<rparr>\<rparr>,
       \<lparr>node_id = ''q1'', node_type = QueueNode, node_name = ''orders.q'',
        node_x = 650, node_y = 100,
        node_data = QueueData
          \<lparr>queue_id = ''q1'', queue_name = ''orders.q'', queue_type = qt,
           messagesTotal = 10, consumers = 1, healthScore = 90\<rparr>\<rparr>],
    edges =
      [\<lparr>edge_id = ''b1'', edge_source = ''e1'', edge_target = ''q1'',
        edge_routingKey = ''order.created''\<rparr>]\<rparr>"
  by (simp add: resolve_def sourceNode_def targetNode_def sourceMatch_def targetMatch_def)

section \<open>Unresolved bindings\<close>

text \<open>
  C6: a binding whose source matches no node of the output (by id, by display name, or
  for an exchange node by the name of its record), or whose destination matches none,
  adds no edge: the edge list is the one the resolver gives without that binding, so the
  edges of the bindings before and after it are what they would be, and the node list is
  the same, as it does not depend on the bindings at all. The resolver has no \<open>throw\<close>
  and reads no property of a missing object, so it returns a graph on every input, as
  the total function \<open>resolve\<close> does.
\<close>

theorem unresolved_binding_dropped:
  assumes "(\<forall>n \<in> set (nodes (resolve exs qs (bs1 @ b # bs2) ft)). \<not> sourceMatch b n)
         \<or> (\<forall>n \<in> set (nodes (resolve exs qs (bs1 @ b # bs2) ft)). \<not> targetMatch b n)"
  shows "edges (resolve exs qs (bs1 @ b # bs2) ft) = edges (resolve exs qs (bs1 @ bs2) ft)
       \<and> nodes (resolve exs qs (bs1 @ b # bs2) ft) = nodes (resolve exs qs (bs1 @ bs2) ft)
       \<and> nodes (resolve exs qs (bs1 @ b # bs2) ft) = nodes (resolve exs qs [] ft)"
proof -
  let ?nl = "nodes (resolve exs qs (bs1 @ b # bs2) ft)"
  have same: "nodes (resolve exs qs (bs1 @ bs2) ft) = ?nl" "nodes (resolve exs qs [] ft) = ?nl"
    by (simp_all add: nodes_resolve)
  from assms have "sourceNode ?nl b = None \<or> targetNode ?nl b = None"
    by (auto simp: sourceNode_def targetNode_def find_None_iff)
  then have "pushEdges ?nl (b # bs2) (pushEdges ?nl bs1 []) = pushEdges ?nl bs2 (pushEdges ?nl bs1 [])"
    by (rule pushEdges_skip)
  then have "pushEdges ?nl (bs1 @ b # bs2) [] = pushEdges ?nl (bs1 @ bs2) []"
    by (simp only: pushEdges_append)
  then have "edges (resolve exs qs (bs1 @ b # bs2) ft) = edges (resolve exs qs (bs1 @ bs2) ft)"
    by (simp only: edges_resolve same)
  with same show ?thesis by simp
qed

theorem unresolved_binding_dropped_witness:
  "length (nodes (resolve [ex_orders] [q_orders] [b_orders, b_missing] FilterAll)) = 2
   \<and> \<not> sourceMatch b_missing (nodes (resolve [ex_orders] [q_orders] [b_orders, b_missing] FilterAll) ! 0)
   \<and> \<not> sourceMatch b_missing (nodes (resolve [ex_orders] [q_orders] [b_orders, b_missing] FilterAll) ! 1)
   \<and> edges (resolve [ex_orders] [q_orders] [b_orders, b_missing] FilterAll) =
       edges (resolve [ex_orders] [q_orders] [b_orders] FilterAll)
   \<and> nodes (resolve [ex_orders] [q_orders] [b_orders, b_missing] FilterAll) =
       nodes (resolve [ex_orders] [q_orders] [b_orders] FilterAll)"
proof -
  let ?nl = "nodes (resolve [ex_orders] [q_orders] [b_orders, b_missing] FilterAll)"
  have c: "length ?nl = 2" "\<not> sourceMatch b_missing (?nl ! 0)" "\<not> sourceMatch b_missing (?nl ! 1)"
    by (simp_all add: resolve_eval fixture_defs)
  have "\<forall>n \<in> set ?nl. \<not> sourceMatch b_missing n"
    by (simp add: resolve_eval fixture_defs)
  with unresolved_binding_dropped [of "[ex_orders]" "[q_orders]" "[b_orders]" b_missing "[]" FilterAll]
  have "edges (resolve [ex_orders] [q_orders] [b_orders, b_missing] FilterAll) =
       edges (resolve [ex_orders] [q_orders] [b_orders] FilterAll)
   \<and> nodes (resolve [ex_orders] [q_orders] [b_orders, b_missing] FilterAll) =
       nodes (resolve [ex_orders] [q_orders] [b_orders] FilterAll)"
    by simp
  with c show ?thesis by simp
qed

section \<open>Zoom\<close>

lemma zoomStep_bounds:
  assumes rnd: "mono rnd" "rnd 0 = 0" "rnd (1 / 2) = 1 / 2" "rnd 2 = 2"
    and s: "1 / 2 \<le> zoom s" "zoom s \<le> 2"
  shows "1 / 2 \<le> zoom (zoomStep rnd s a) \<and> zoom (zoomStep rnd s a) \<le> 2"
proof -
  have step: "0 \<le> rnd (2 / 10)"
    using monoD [OF rnd(1), of 0 "2 / 10"] rnd(2) by simp
  have up: "1 / 2 \<le> rnd (zoom s + rnd (2 / 10))"
    using monoD [OF rnd(1), of "1 / 2" "zoom s + rnd (2 / 10)"] rnd(3) s(1) step by simp
  have down: "rnd (zoom s - rnd (2 / 10)) \<le> 2"
    using monoD [OF rnd(1), of "zoom s - rnd (2 / 10)" 2] rnd(4) s(2) step by simp
  show ?thesis
  proof (cases a)
    case ZoomIn
    with up show ?thesis by (simp add: handleZoomIn_def)
  next
    case ZoomOut
    with down show ?thesis by (simp add: handleZoomOut_def)
  next
    case ResetView
    then show ?thesis by (simp add: handleResetView_def)
  qed
qed

lemma runZoom_bounds:
  assumes "mono rnd" "rnd 0 = 0" "rnd (1 / 2) = 1 / 2" "rnd 2 = 2"
  shows "1 / 2 \<le> zoom s \<Longrightarrow> zoom s \<le> 2 \<Longrightarrow>
         1 / 2 \<le> zoom (runZoom rnd s as) \<and> zoom (runZoom rnd s as) \<le> 2"
proof (induction as arbitrary: s)
  case Nil
  then show ?case by simp
next
  case (Cons a as)
  from zoomStep_bounds [OF assms Cons.prems, of a] Cons.IH [of "zoomStep rnd s a"]
  show ?case by simp
qed

text \<open>
  C7: from the initial view state, whose zoom is 1, every finite sequence of zoom-in,
  zoom-out and reset steps leaves the zoom between 0.5 and 2; zoom-in sets it to the
  minimum of zoom + 0.2 and 2, zoom-out to the maximum of zoom - 0.2 and 0.5. This holds
  for every rounding of the sums that is monotone and leaves 0, 0.5 and 2 as they are,
  as rounding to the nearest double does, and so also for exact arithmetic.
\<close>

theorem zoom_stays_in_range:
  assumes "mono rnd" "rnd 0 = 0" "rnd (1 / 2) = 1 / 2" "rnd 2 = 2"
  shows "1 / 2 \<le> zoom (runZoom rnd initialView as)
       \<and> zoom (runZoom rnd initialView as) \<le> 2
       \<and> zoom (handleZoomIn rnd s) = min (rnd (zoom s + rnd (2 / 10))) 2
       \<and> zoom (handleZoomOut rnd s) = max (rnd (zoom s - rnd (2 / 10))) (1 / 2)"
proof -
  have "1 / 2 \<le> zoom initialView" "zoom initialView \<le> 2"
    by (simp_all add: initialView_def)
  from runZoom_bounds [OF assms this, of as] show ?thesis
    by (simp add: handleZoomIn_def handleZoomOut_def)
qed

theorem zoom_stays_in_range_witness:
  "mono (\<lambda>q :: rat. q)
   \<and> 1 / 2 \<le> zoom (runZoom (\<lambda>q. q) initialView [ZoomIn, ZoomIn, ZoomIn, ZoomIn, ZoomIn, ZoomIn])
   \<and> zoom (runZoom (\<lambda>q. q) initialView [ZoomIn, ZoomIn, ZoomIn, ZoomIn, ZoomIn, ZoomIn]) \<le> 2
   \<and> zoom (handleZoomIn (\<lambda>q. q) initialView) = 12 / 10
   \<and> zoom (handleZoomOut (\<lambda>q. q) initialView) = 8 / 10"
proof -
  have m: "mono (\<lambda>q :: rat. q)" by (simp add: mono_def)
  from zoom_stays_in_range [OF m, of "[ZoomIn, ZoomIn, ZoomIn, ZoomIn, ZoomIn, ZoomIn]" initialView] m
  show ?thesis by (simp add: initialView_def)
qed

section \<open>Selection\<close>

text \<open>
  The claim C8 also says that two clicks on \<open>q1\<close> end with nothing selected from any
  state. From the state in which \<open>q1\<close> is selected, the first click clears the selection
  and the second selects \<open>q1\<close> again.
\<close>

theorem select_twice_from_selected:
  "selectedNode (selectNode ''q1'' (selectNode ''q1'' (initialView\<lparr>selectedNode := Some ''q1''\<rparr>)))
     = Some ''q1''"
  by (simp add: selectNode_def initialView_def)

text \<open>
  C8, as the code has it: a click on the selected node clears the selection, a click on
  any other node selects it; two clicks in a row on the same node end with nothing
  selected when that node was not selected before, and with that node selected when it
  was.
\<close>

theorem selectNode_toggles:
  "(selectedNode s = Some nodeId \<longrightarrow> selectedNode (selectNode nodeId s) = None)
   \<and> (selectedNode s \<noteq> Some nodeId \<longrightarrow> selectedNode (selectNode nodeId s) = Some nodeId)
   \<and> (selectedNode s \<noteq> Some nodeId \<longrightarrow>
        selectedNode (selectNode nodeId (selectNode nodeId s)) = None)
   \<and> (selectedNode s = Some nodeId \<longrightarrow>
        selectedNode (selectNode nodeId (selectNode nodeId s)) = Some nodeId)"
  by (simp add: selectNode_def)

theorem selectNode_toggles_witness:
  "selectedNode (selectNode ''q1'' (initialView\<lparr>selectedNode := Some ''q1''\<rparr>)) = None
   \<and> selectedNode (selectNode ''q1'' (initialView\<lparr>selectedNode := Some ''e1''\<rparr>)) = Some ''q1''
   \<and> selectedNode (selectNode ''q1'' (selectNode ''q1'' (initialView\<lparr>selectedNode := Some ''e1''\<rparr>)))
        = None
   \<and> selectedNode (selectNode ''q1'' (selectNode ''q1'' initialView)) = None"
  using selectNode_toggles [of "initialView\<lparr>selectedNode := Some ''q1''\<rparr>" "''q1''"]
    selectNode_toggles [of "initialView\<lparr>selectedNode := Some ''e1''\<rparr>" "''q1''"]
    selectNode_toggles [of initialView "''q1''"]
  by (simp add: initialView_def)

section \<open>The filter handler\<close>

text \<open>
  C9: \<open>setFilterType\<close> replaces the filter type and nothing else: zoom, pan, label
  visibility, the drag cells and the selected node id are what they were, whatever node
  is selected and whether or not it is still in the filtered node list.
\<close>

theorem setFilterType_frame:
  "filterType (setFilterType t s) = t
   \<and> zoom (setFilterType t s) = zoom s
   \<and> pan (setFilterType t s) = pan s
   \<and> showLabels (setFilterType t s) = showLabels s
   \<and> selectedNode (setFilterType t s) = selectedNode s
   \<and> isDragging (setFilterType t s) = isDragging s
   \<and> dragStart (setFilterType t s) = dragStart s"
  by (simp add: setFilterType_def)

section \<open>Exchanges come first\<close>

text \<open>
  C10: in the node list of the output every exchange node stands before every queue
  node. So when some exchange node matches a binding's source by id or by name, the
  source resolves to an exchange node that matches the source by id or by name, the
  first node of the list that does, whatever queue nodes match as well, and the edge
  that the binding gets with any target has that node's id as its source. The same
  holds for the destination and the edge's target.
\<close>

theorem exchanges_before_queues:
  "(\<forall>i j. i < length (nodes (resolve exs qs bs ft)) \<and> j < length (nodes (resolve exs qs bs ft))
       \<and> node_type (nodes (resolve exs qs bs ft) ! i) = ExchangeNode
       \<and> node_type (nodes (resolve exs qs bs ft) ! j) = QueueNode \<longrightarrow> i < j)
   \<and> ((\<exists>n \<in> set (nodes (resolve exs qs bs ft)). node_type n = ExchangeNode
          \<and> (node_id n = binding_source b \<or> node_name n = binding_source b))
        \<longrightarrow> (\<exists>m i. sourceNode (nodes (resolve exs qs bs ft)) b = Some m
               \<and> i < length (nodes (resolve exs qs bs ft))
               \<and> nodes (resolve exs qs bs ft) ! i = m
               \<and> node_type m = ExchangeNode
               \<and> (node_id m = binding_source b \<or> node_name m = binding_source b)
               \<and> (\<forall>j < i. node_id (nodes (resolve exs qs bs ft) ! j) \<noteq> binding_source b \<and>
                            node_name (nodes (resolve exs qs bs ft) ! j) \<noteq> binding_source b)
               \<and> (\<forall>t. b \<in> set bs \<and> targetNode (nodes (resolve exs qs bs ft)) b = Some t \<longrightarrow>
                     \<lparr>edge_id = binding_id b, edge_source = node_id m, edge_target = node_id t,
                      edge_routingKey = binding_routingKey b\<rparr>
                     \<in> set (edges (resolve exs qs bs ft)))))
   \<and> ((\<exists>n \<in> set (nodes (resolve exs qs bs ft)). node_type n = ExchangeNode
          \<and> (node_id n = binding_destination b \<or> node_name n = binding_destination b))
        \<longrightarrow> (\<exists>m i. targetNode (nodes (resolve exs qs bs ft)) b = Some m
               \<and> i < length (nodes (resolve exs qs bs ft))
               \<and> nodes (resolve exs qs bs ft) ! i = m
               \<and> node_type m = ExchangeNode
               \<and> (node_id m = binding_destination b \<or> node_name m = binding_destination b)
               \<and> (\<forall>j < i. node_id (nodes (resolve exs qs bs ft) ! j) \<noteq> binding_destination b \<and>
                            node_name (nodes (resolve exs qs bs ft) ! j) \<noteq> binding_destination b)
               \<and> (\<forall>s. b \<in> set bs \<and> sourceNode (nodes (resolve exs qs bs ft)) b = Some s \<longrightarrow>
                     \<lparr>edge_id = binding_id b, edge_source = node_id s, edge_target = node_id m,
                      edge_routingKey = binding_routingKey b\<rparr>
                     \<in> set (edges (resolve exs qs bs ft)))))"
proof (intro conjI impI allI)
  fix i j
  assume "i < length (nodes (resolve exs qs bs ft)) \<and> j < length (nodes (resolve exs qs bs ft))
       \<and> node_type (nodes (resolve exs qs bs ft) ! i) = ExchangeNode
       \<and> node_type (nodes (resolve exs qs bs ft) ! j) = QueueNode"
  then show "i < j" using nodes_order by blast
next
  let ?nl = "nodes (resolve exs qs bs ft)"
  assume ex: "\<exists>n \<in> set ?nl. node_type n = ExchangeNode
          \<and> (node_id n = binding_source b \<or> node_name n = binding_source b)"
  have P: "sourceMatch b n \<longleftrightarrow> node_id n = binding_source b \<or> node_name n = binding_source b"
    if "n \<in> set ?nl" for n
    using that by (rule sourceMatch_resolved)
  from exchange_picked [of exs qs bs ft "sourceMatch b" "binding_source b", OF P ex]
  obtain m i where m: "sourceNode ?nl b = Some m" "i < length ?nl" "?nl ! i = m"
    "node_type m = ExchangeNode"
    "node_id m = binding_source b \<or> node_name m = binding_source b"
    "\<forall>j < i. node_id (?nl ! j) \<noteq> binding_source b \<and> node_name (?nl ! j) \<noteq> binding_source b"
    unfolding sourceNode_def by blast
  have "\<forall>t. b \<in> set bs \<and> targetNode ?nl b = Some t \<longrightarrow>
          \<lparr>edge_id = binding_id b, edge_source = node_id m, edge_target = node_id t,
           edge_routingKey = binding_routingKey b\<rparr> \<in> set (edges (resolve exs qs bs ft))"
  proof (intro allI impI)
    fix t
    assume "b \<in> set bs \<and> targetNode ?nl b = Some t"
    then have bt: "b \<in> set bs" "targetNode ?nl b = Some t" by simp_all
    from pushEdges_member [OF bt(1) m(1) bt(2), of "[]"]
    show "\<lparr>edge_id = binding_id b, edge_source = node_id m, edge_target = node_id t,
           edge_routingKey = binding_routingKey b\<rparr> \<in> set (edges (resolve exs qs bs ft))"
      by (simp add: edges_resolve)
  qed
  with m show "\<exists>m i. sourceNode ?nl b = Some m \<and> i < length ?nl \<and> ?nl ! i = m
               \<and> node_type m = ExchangeNode
               \<and> (node_id m = binding_source b \<or> node_name m = binding_source b)
               \<and> (\<forall>j < i. node_id (?nl ! j) \<noteq> binding_source b \<and>
                            node_name (?nl ! j) \<noteq> binding_source b)
               \<and> (\<forall>t. b \<in> set bs \<and> targetNode ?nl b = Some t \<longrightarrow>
                     \<lparr>edge_id = binding_id b, edge_source = node_id m, edge_target = node_id t,
                      edge_routingKey = binding_routingKey b\<rparr>
                     \<in> set (edges (resolve exs qs bs ft)))"
    by blast
next
  let ?nl = "nodes (resolve exs qs bs ft)"
  assume ex: "\<exists>n \<in> set ?nl. node_type n = ExchangeNode
          \<and> (node_id n = binding_destination b \<or> node_name n = binding_destination b)"
  have P: "targetMatch b n \<longleftrightarrow>
             node_id n = binding_destination b \<or> node_name n = binding_destination b"
    if "n \<in> set ?nl" for n
    using that by (rule targetMatch_resolved)
  from exchange_picked [of exs qs bs ft "targetMatch b" "binding_destination b", OF P ex]
  obtain m i where m: "targetNode ?nl b = Some m" "i < length ?nl" "?nl ! i = m"
    "node_type m = ExchangeNode"
    "node_id m = binding_destination b \<or> node_name m = binding_destination b"
    "\<forall>j < i. node_id (?nl ! j) \<noteq> binding_destination b \<and>
              node_name (?nl ! j) \<noteq> binding_destination b"
    unfolding targetNode_def by blast
  have "\<forall>s. b \<in> set bs \<and> sourceNode ?nl b = Some s \<longrightarrow>
          \<lparr>edge_id = binding_id b, edge_source = node_id s, edge_target = node_id m,
           edge_routingKey = binding_routingKey b\<rparr> \<in> set (edges (resolve exs qs bs ft))"
  proof (intro allI impI)
    fix s
    assume "b \<in> set bs \<and> sourceNode ?nl b = Some s"
    then have bs: "b \<in> set bs" "sourceNode ?nl b = Some s" by simp_all
    from pushEdges_member [OF bs(1) bs(2) m(1), of "[]"]
    show "\<lparr>edge_id = binding_id b, edge_source = node_id s, edge_target = node_id m,
           edge_routingKey = binding_routingKey b\<rparr> \<in> set (edges (resolve exs qs bs ft))"
      by (simp add: edges_resolve)
  qed
  with m show "\<exists>m i. targetNode ?nl b = Some m \<and> i < length ?nl \<and> ?nl ! i = m
               \<and> node_type m = ExchangeNode
               \<and> (node_id m = binding_destination b \<or> node_name m = binding_destination b)
               \<and> (\<forall>j < i. node_id (?nl ! j) \<noteq> binding_destination b \<and>
                            node_name (?nl ! j) \<noteq> binding_destination b)
               \<and> (\<forall>s. b \<in> set bs \<and> sourceNode ?nl b = Some s \<longrightarrow>
                     \<lparr>edge_id = binding_id b, edge_source = node_id s, edge_target = node_id m,
                      edge_routingKey = binding_routingKey b\<rparr>
                     \<in> set (edges (resolve exs qs bs ft)))"
    by blast
qed

theorem exchanges_before_queues_witness:
  "node_type (nodes (resolve [ex_orders] [q_named_orders] [b_same] FilterAll) ! 0) = ExchangeNode
   \<and> node_name (nodes (resolve [ex_orders] [q_named_orders] [b_same] FilterAll) ! 0) = ''orders''
   \<and> node_type (nodes (resolve [ex_orders] [q_named_orders] [b_same] FilterAll) ! 1) = QueueNode
   \<and> node_name (nodes (resolve [ex_orders] [q_named_orders] [b_same] FilterAll) ! 1) = ''orders''
   \<and> (\<exists>m t. sourceNode (nodes (resolve [ex_orders] [q_named_orders] [b_same] FilterAll)) b_same = Some m
          \<and> targetNode (nodes (resolve [ex_orders] [q_named_orders] [b_same] FilterAll)) b_same = Some t
          \<and> node_type m = ExchangeNode \<and> node_type t = ExchangeNode
          \<and> (node_id m = ''orders'' \<or> node_name m = ''orders'')
          \<and> (node_id t = ''orders'' \<or> node_name t = ''orders'')
          \<and> \<lparr>edge_id = ''b4'', edge_source = node_id m, edge_target = node_id t,
              edge_routingKey = ''loop''\<rparr>
             \<in> set (edges (resolve [ex_orders] [q_named_orders] [b_same] FilterAll)))"
proof -
  let ?r = "resolve [ex_orders] [q_named_orders] [b_same] FilterAll"
  let ?nl = "nodes ?r"
  have c: "node_type (?nl ! 0) = ExchangeNode" "node_name (?nl ! 0) = ''orders''"
    "node_type (?nl ! 1) = QueueNode" "node_name (?nl ! 1) = ''orders''"
    by (simp_all add: nodes_resolve fixture_defs)
  have mem: "?nl ! 0 \<in> set ?nl"
    by (simp add: nodes_resolve fixture_defs)
  have b: "binding_source b_same = ''orders''" "binding_destination b_same = ''orders''"
    "binding_id b_same = ''b4''" "binding_routingKey b_same = ''loop''" "b_same \<in> set [b_same]"
    by (simp_all add: fixture_defs)
  from mem c b have ex:
    "\<exists>n \<in> set ?nl. node_type n = ExchangeNode
          \<and> (node_id n = binding_source b_same \<or> node_name n = binding_source b_same)"
    "\<exists>n \<in> set ?nl. node_type n = ExchangeNode
          \<and> (node_id n = binding_destination b_same \<or> node_name n = binding_destination b_same)"
    by metis+
  note T = exchanges_before_queues [of "[ex_orders]" "[q_named_orders]" "[b_same]" FilterAll b_same]
  from T ex(1) obtain m where m: "sourceNode ?nl b_same = Some m" "node_type m = ExchangeNode"
    "node_id m = binding_source b_same \<or> node_name m = binding_source b_same"
    "\<forall>t. b_same \<in> set [b_same] \<and> targetNode ?nl b_same = Some t \<longrightarrow>
        \<lparr>edge_id = binding_id b_same, edge_source = node_id m, edge_target = node_id t,
         edge_routingKey = binding_routingKey b_same\<rparr> \<in> set (edges ?r)"
    by blast
  from T ex(2) obtain t where t: "targetNode ?nl b_same = Some t" "node_type t = ExchangeNode"
    "node_id t = binding_destination b_same \<or> node_name t = binding_destination b_same"
    by blast
  from m(4) t(1) b(5) have "\<lparr>edge_id = binding_id b_same, edge_source = node_id m,
      edge_target = node_id t, edge_routingKey = binding_routingKey b_same\<rparr> \<in> set (edges ?r)"
    by blast
  with m(1-3) t b(1-4) have "\<exists>m t. sourceNode ?nl b_same = Some m \<and> targetNode ?nl b_same = Some t
          \<and> node_type m = ExchangeNode \<and> node_type t = ExchangeNode
          \<and> (node_id m = ''orders'' \<or> node_name m = ''orders'')
          \<and> (node_id t = ''orders'' \<or> node_name t = ''orders'')
          \<and> \<lparr>edge_id = ''b4'', edge_source = node_id m, edge_target = node_id t,
              edge_routingKey = ''loop''\<rparr> \<in> set (edges ?r)"
    by metis
  with c show ?thesis by simp
qed

end
